theory Spec2Isabelle
  imports Main
begin

section \<open>Python values and strings\<close>

text \<open>
  A Python \<open>str\<close> is modelled as a \<open>string\<close>. The repository's commands, column names
  and dates are ASCII text, and the case, digit and whitespace tests below are Python's on
  the ASCII range. Python's \<open>int\<close> is unbounded, so it is \<open>int\<close>.
\<close>

datatype py_error = KeyError | AttributeError | ValueError

definition nl :: string where
  "nl = [CHR 0x0A]"

definition ascii_uppercase :: string where
  "ascii_uppercase = ''ABCDEFGHIJKLMNOPQRSTUVWXYZ''"

definition ascii_lowercase :: string where
  "ascii_lowercase = ''abcdefghijklmnopqrstuvwxyz''"

definition digits :: string where
  "digits = ''0123456789''"

text \<open>The ASCII characters for which \<open>str.isspace\<close> holds: tab to carriage return,
  the four separators 0x1C to 0x1F, and the blank.\<close>

definition whitespace :: string where
  "whitespace = [CHR 0x09, CHR 0x0A, CHR 0x0B, CHR 0x0C, CHR 0x0D,
                 CHR 0x1C, CHR 0x1D, CHR 0x1E, CHR 0x1F, CHR 0x20]"

definition lower_char :: "char \<Rightarrow> char" where
  "lower_char c = (case map_of (zip ascii_uppercase ascii_lowercase) c of
                     Some l \<Rightarrow> l | None \<Rightarrow> c)"

definition upper_char :: "char \<Rightarrow> char" where
  "upper_char c = (case map_of (zip ascii_lowercase ascii_uppercase) c of
                     Some u \<Rightarrow> u | None \<Rightarrow> c)"

definition isspace :: "char \<Rightarrow> bool" where
  "isspace c = (c \<in> set whitespace)"

definition isalpha :: "char \<Rightarrow> bool" where
  "isalpha c = (c \<in> set ascii_uppercase \<or> c \<in> set ascii_lowercase)"

definition isdigit :: "char \<Rightarrow> bool" where
  "isdigit c = (c \<in> set digits)"

text \<open>\<open>s.lower()\<close>, \<open>s.strip()\<close>, \<open>s.replace(old, new)\<close> for a one-character \<open>old\<close>,
  \<open>s.title()\<close> and \<open>sep.join(parts)\<close>.\<close>

definition str_lower :: "string \<Rightarrow> string" where
  "str_lower s = map lower_char s"

definition str_strip :: "string \<Rightarrow> string" where
  "str_strip s = rev (dropWhile isspace (rev (dropWhile isspace s)))"

definition str_replace :: "char \<Rightarrow> string \<Rightarrow> string \<Rightarrow> string" where
  "str_replace old new s = concat (map (\<lambda>c. if c = old then new else [c]) s)"

fun title_from :: "bool \<Rightarrow> string \<Rightarrow> string" where
  "title_from previous_is_cased [] = []"
| "title_from previous_is_cased (c # cs) =
     (if isalpha c
      then (if previous_is_cased then lower_char c else upper_char c) # title_from True cs
      else c # title_from False cs)"

definition str_title :: "string \<Rightarrow> string" where
  "str_title s = title_from False s"

fun str_join :: "string \<Rightarrow> string list \<Rightarrow> string" where
  "str_join sep [] = []"
| "str_join sep [x] = x"
| "str_join sep (x # y # ys) = x @ sep @ str_join sep (y # ys)"

fun startswith :: "string \<Rightarrow> string \<Rightarrow> bool" where
  "startswith s [] = True"
| "startswith [] (p # ps) = False"
| "startswith (c # cs) (p # ps) = (c = p \<and> startswith cs ps)"

text \<open>\<open>str(n)\<close>, and \<open>int(s)\<close> for a string of decimal digits between optional blanks
  (the interpreter's configurable limit on the number of digits is not modelled).\<close>

fun str_nat :: "nat \<Rightarrow> string" where
  "str_nat n = (if n < 10 then [digits ! n] else str_nat (n div 10) @ [digits ! (n mod 10)])"

declare str_nat.simps [simp del]

definition str_int :: "int \<Rightarrow> string" where
  "str_int i = (if i < 0 then CHR ''-'' # str_nat (nat (- i)) else str_nat (nat i))"

definition digit_val :: "char \<Rightarrow> int" where
  "digit_val c = int (length (takeWhile (\<lambda>d. d \<noteq> c) digits))"

definition int_of_digits :: "string \<Rightarrow> int" where
  "int_of_digits s = foldl (\<lambda>a c. 10 * a + digit_val c) 0 s"

definition py_int :: "string \<Rightarrow> int" where
  "py_int s = int_of_digits (str_strip s)"

text \<open>The values held by a table cell, by a parsed update and by a retrieved document:
  integers, strings, and the missing value.\<close>

datatype val = IntV int | StrV string | NaN

fun str_val :: "val \<Rightarrow> string" where
  "str_val (IntV i) = str_int i"
| "str_val (StrV s) = s"
| "str_val NaN = ''nan''"


section \<open>Regular expressions (the \<open>re\<close> module)\<close>

text \<open>
  The patterns of the repository use literals, character classes, greedy and lazy
  repetition of a class, alternation, an optional group and capturing groups. \<open>paths\<close>
  lists every way a pattern can match at the start of a string, in the order in which the
  backtracking matcher tries them; the match that \<open>re\<close> reports is the first one.
  A state is the text still to be read and the groups captured so far.
\<close>

datatype cls = AnyChar | Digit | Word | Space | OneOf string

fun in_cls :: "cls \<Rightarrow> char \<Rightarrow> bool" where
  "in_cls AnyChar c = (c \<noteq> CHR 0x0A)"
| "in_cls Digit c = isdigit c"
| "in_cls Word c = (isalpha c \<or> isdigit c \<or> c = CHR ''_'')"
| "in_cls Space c = isspace c"
| "in_cls (OneOf cs) c = (c \<in> set cs)"

datatype rx =
    Lit string
  | One cls
  | Rep cls nat bool
  | Seq rx rx
  | Alt rx rx
  | Opt rx
  | Grp nat rx

type_synonym groups = "(nat \<times> string) list"

text \<open>\<open>Rep k n True\<close> is the greedy \<open>k{n,}\<close> (longest first), \<open>Rep k n False\<close> the lazy
  one (shortest first).\<close>

fun rep_greedy :: "cls \<Rightarrow> nat \<Rightarrow> string \<Rightarrow> string list" where
  "rep_greedy k n [] = (if n = 0 then [[]] else [])"
| "rep_greedy k n (c # cs) =
     (if in_cls k c then rep_greedy k (n - 1) cs else []) @ (if n = 0 then [c # cs] else [])"

fun rep_lazy :: "cls \<Rightarrow> nat \<Rightarrow> string \<Rightarrow> string list" where
  "rep_lazy k n [] = (if n = 0 then [[]] else [])"
| "rep_lazy k n (c # cs) =
     (if n = 0 then [c # cs] else []) @ (if in_cls k c then rep_lazy k (n - 1) cs else [])"

fun paths :: "rx \<Rightarrow> string \<times> groups \<Rightarrow> (string \<times> groups) list" where
  "paths (Lit l) (s, g) = (if startswith s l then [(drop (length l) s, g)] else [])"
| "paths (One k) (s, g) =
     (case s of [] \<Rightarrow> [] | c # cs \<Rightarrow> if in_cls k c then [(cs, g)] else [])"
| "paths (Rep k n greedy) (s, g) =
     map (\<lambda>r. (r, g)) (if greedy then rep_greedy k n s else rep_lazy k n s)"
| "paths (Seq a b) st = concat (map (paths b) (paths a st))"
| "paths (Alt a b) st = paths a st @ paths b st"
| "paths (Opt a) st = paths a st @ [st]"
| "paths (Grp i a) (s, g) =
     map (\<lambda>(r, g'). (r, (i, take (length s - length r) s) # g')) (paths a (s, g))"

text \<open>\<open>re.match\<close> anchors at the start; \<open>re.search\<close> tries every start position from the
  left, the end of the string included. \<open>group m i\<close> is \<open>m.group(i)\<close>.\<close>

definition re_match :: "rx \<Rightarrow> string \<Rightarrow> (string \<times> groups) option" where
  "re_match r s = (case paths r (s, []) of [] \<Rightarrow> None | m # _ \<Rightarrow> Some m)"

fun re_search :: "rx \<Rightarrow> string \<Rightarrow> groups option" where
  "re_search r [] = map_option snd (re_match r [])"
| "re_search r (c # cs) =
     (case re_match r (c # cs) of Some m \<Rightarrow> Some (snd m) | None \<Rightarrow> re_search r cs)"

definition group :: "groups \<Rightarrow> nat \<Rightarrow> string" where
  "group m i = (case map_of m i of Some t \<Rightarrow> t | None \<Rightarrow> [])"

definition seq :: "rx list \<Rightarrow> rx" where
  "seq rs = foldr Seq rs (Lit [])"

definition star :: "cls \<Rightarrow> rx" where
  "star k = Rep k 0 True"

definition star_lazy :: "cls \<Rightarrow> rx" where
  "star_lazy k = Rep k 0 False"

definition many1 :: "cls \<Rightarrow> rx" where
  "many1 k = Rep k 1 True"

section \<open>Update interpreter (app.py)\<close>

subsection \<open>Dictionaries and data frames\<close>

text \<open>
  A Python \<open>dict\<close> keeps its keys in insertion order: an association list with
  \<open>d[k] = v\<close> overwriting in place or appending.
\<close>

type_synonym updates = "(string \<times> val) list"

definition dict_set :: "updates \<Rightarrow> string \<Rightarrow> val \<Rightarrow> updates" where
  "dict_set d k v =
     (if k \<in> set (map fst d) then map (\<lambda>(k', v'). if k' = k then (k', v) else (k', v')) d
      else d @ [(k, v)])"

definition dict_get :: "updates \<Rightarrow> string \<Rightarrow> val \<Rightarrow> val" where
  "dict_get d k dflt = (case map_of d k of Some v \<Rightarrow> v | None \<Rightarrow> dflt)"

text \<open>
  A pandas \<open>DataFrame\<close> is a list of named columns, each the list of its cells by row.
  \<open>wf\<close> says that the column names are distinct and the table is rectangular, as every
  frame read from a CSV file is.
\<close>

type_synonym dataframe = "(string \<times> val list) list"

definition columns :: "dataframe \<Rightarrow> string list" where
  "columns df = map fst df"

definition nrows :: "dataframe \<Rightarrow> nat" where
  "nrows df = (case df of [] \<Rightarrow> 0 | (_, col) # _ \<Rightarrow> length col)"

definition wf :: "dataframe \<Rightarrow> bool" where
  "wf df = (distinct (columns df) \<and> list_all (\<lambda>(_, col). length col = nrows df) df)"

definition df_empty :: "dataframe \<Rightarrow> bool" where
  "df_empty df = (df = [] \<or> nrows df = 0)"

definition getitem :: "dataframe \<Rightarrow> string \<Rightarrow> py_error + val list" where
  "getitem df k = (case map_of df k of None \<Rightarrow> Inl KeyError | Some col \<Rightarrow> Inr col)"

definition cell :: "dataframe \<Rightarrow> string \<Rightarrow> nat \<Rightarrow> val" where
  "cell df k i = (case map_of df k of None \<Rightarrow> NaN | Some col \<Rightarrow> col ! i)"

text \<open>Element-wise \<open>==\<close> of a column with a scalar: the missing value equals nothing.\<close>

fun val_eq :: "val \<Rightarrow> val \<Rightarrow> bool" where
  "val_eq NaN w = False"
| "val_eq v NaN = False"
| "val_eq v w = (v = w)"

text \<open>The \<open>.str\<close> accessor is refused (AttributeError) on a column that holds no string;
  on a column of strings \<open>.str.lower()\<close> maps a string to its lower case and anything else
  to the missing value.\<close>

fun is_str :: "val \<Rightarrow> bool" where
  "is_str (StrV s) = True"
| "is_str v = False"

fun lower_cell :: "val \<Rightarrow> val" where
  "lower_cell (StrV s) = StrV (str_lower s)"
| "lower_cell v = NaN"

definition series_str_lower :: "val list \<Rightarrow> py_error + val list" where
  "series_str_lower col =
     (if list_ex is_str col then Inr (map lower_cell col) else Inl AttributeError)"

text \<open>\<open>df.loc[mask, key] = value\<close>: the cells of column \<open>key\<close> in the rows that the
  mask selects. Cells carry no dtype here, so the write always succeeds; pandas refuses a
  value that the dtype of the column cannot hold (an integer outside the 64-bit range into
  an integer column and, in recent versions, a string into an integer column), and such
  writes are outside this model.\<close>

definition loc_set :: "dataframe \<Rightarrow> bool list \<Rightarrow> string \<Rightarrow> val \<Rightarrow> dataframe" where
  "loc_set df row_mask key v =
     map (\<lambda>(k, col). if k = key then (k, map (\<lambda>(m, x). if m then v else x) (zip row_mask col))
                      else (k, col)) df"

subsection \<open>\<open>parse_update_query\<close>\<close>

definition to_or_as :: rx where
  "to_or_as = Alt (Lit ''to'') (Lit ''as'')"

definition as_or_to :: rx where
  "as_or_to = Alt (Lit ''as'') (Lit ''to'')"

text \<open>The \<open>patterns\<close> dictionary, in its order.\<close>

definition patterns :: "(string \<times> rx) list" where
  "patterns =
   [(''product_name'',
       seq [Lit ''update'', star AnyChar, Lit ''product'', star AnyChar, Lit ''name'',
            star_lazy AnyChar, Grp 1 (many1 Word), star_lazy AnyChar, as_or_to,
            star Space, Grp 2 (many1 Word)]),
    (''current_stock'',
       seq [Lit ''update'', star AnyChar,
            Alt (Lit ''stock'') (seq [Lit ''current'', star_lazy AnyChar, Lit ''stock'']),
            star_lazy AnyChar, to_or_as, star Space, Grp 1 (many1 Digit)]),
    (''last_sold_date'',
       seq [Lit ''update'', star AnyChar, Lit ''last'', star_lazy AnyChar, Lit ''sold'',
            star_lazy AnyChar, Lit ''date'', star_lazy AnyChar, to_or_as, star Space,
            Grp 1 (many1 (OneOf ''0123456789-''))]),
    (''expiry_date'',
       seq [Lit ''update'', star AnyChar, Lit ''expiry'', star_lazy AnyChar, Lit ''date'',
            star_lazy AnyChar, to_or_as, star Space,
            Grp 1 (many1 (OneOf ''0123456789-''))]),
    (''sales_last_month'',
       seq [Lit ''update'', star AnyChar,
            Alt (seq [Lit ''sales'', star_lazy AnyChar, Lit ''last'', star_lazy AnyChar,
                      Lit ''month''])
                (seq [Lit ''last'', star_lazy AnyChar, Lit ''month'', star_lazy AnyChar,
                      Lit ''sales'']),
            star_lazy AnyChar, to_or_as, star Space, Grp 1 (many1 Digit)]),
    (''location'',
       seq [Lit ''update'', star AnyChar, Lit ''location'', star_lazy AnyChar, to_or_as,
            star Space, Grp 1 (many1 Word)]),
    (''factory_distance'',
       seq [Lit ''update'', star AnyChar,
            Alt (seq [Lit ''factory'', star_lazy AnyChar, Lit ''distance''])
                (seq [Lit ''distance'', star_lazy AnyChar, Lit ''factory'']),
            star_lazy AnyChar, to_or_as, star Space, Grp 1 (many1 Digit)])]"

text \<open>The pattern of the product identifier: \<open>product.*?(?:id|number)?\<close> followed by
  blanks and the captured digits.\<close>

definition product_id_pattern :: rx where
  "product_id_pattern =
     seq [Lit ''product'', star_lazy AnyChar, Opt (Alt (Lit ''id'') (Lit ''number'')),
          star Space, Grp 1 (many1 Digit)]"

text \<open>\<open>field.replace('_', ' ').title().replace(' ', '')\<close>\<close>

definition field_key :: "string \<Rightarrow> string" where
  "field_key field = str_replace CHR '' '' [] (str_title (str_replace CHR ''_'' '' '' field))"

text \<open>The body of the loop over \<open>patterns\<close>.\<close>

definition extract_field :: "string \<Rightarrow> updates \<Rightarrow> string \<times> rx \<Rightarrow> updates" where
  "extract_field query updates fp =
     (case fp of (field, pattern) \<Rightarrow>
        (case re_search pattern query of
           None \<Rightarrow> updates
         | Some m \<Rightarrow>
             if field = ''product_name''
             then dict_set (dict_set updates ''old_name'' (StrV (group m 1)))
                           ''ProductName'' (StrV (group m 2))
             else if field \<in> set [''current_stock'', ''sales_last_month'', ''factory_distance'']
             then dict_set updates (field_key field) (IntV (py_int (group m 1)))
             else if field \<in> set [''last_sold_date'', ''expiry_date'']
             then dict_set updates (field_key field) (StrV (group m 1))
             else if field = ''location''
             then dict_set updates ''Location'' (StrV (group m 1))
             else updates))"

definition parse_update_query :: "string \<Rightarrow> updates" where
  "parse_update_query query0 =
     (let query = str_strip (str_lower query0);
          updates = (case re_search product_id_pattern query of
                       Some m \<Rightarrow> dict_set [] ''ProductID'' (IntV (py_int (group m 1)))
                     | None \<Rightarrow> [])
      in foldl (extract_field query) updates patterns)"

subsection \<open>\<open>apply_data_updates\<close>\<close>

text \<open>The row selection: by \<open>ProductID\<close> when the update has one, else by the lower-cased
  product name when it has \<open>old_name\<close>, else no selection at all.\<close>

definition select_rows :: "dataframe \<Rightarrow> updates \<Rightarrow> py_error + bool list option" where
  "select_rows df updates =
     (if ''ProductID'' \<in> set (map fst updates)
      then (case getitem df ''ProductID'' of
              Inl e \<Rightarrow> Inl e
            | Inr col \<Rightarrow> Inr (Some (map (\<lambda>x. val_eq x (dict_get updates ''ProductID'' NaN)) col)))
      else if ''old_name'' \<in> set (map fst updates)
      then (case getitem df ''ProductName'' of
              Inl e \<Rightarrow> Inl e
            | Inr col \<Rightarrow>
               (case series_str_lower col of
                  Inl e \<Rightarrow> Inl e
                | Inr lowered \<Rightarrow>
                   (case dict_get updates ''old_name'' NaN of
                      StrV n \<Rightarrow> Inr (Some (map (\<lambda>x. val_eq x (StrV (str_lower n))) lowered))
                    | _ \<Rightarrow> Inl AttributeError)))
      else Inr None)"

text \<open>The loop over \<open>updates.items()\<close>: the state is the frame and \<open>updated_fields\<close>.\<close>

definition apply_item ::
  "bool list \<Rightarrow> dataframe \<times> string list \<Rightarrow> string \<times> val \<Rightarrow> dataframe \<times> string list" where
  "apply_item row_mask st kv =
     (case st of (df, updated_fields) \<Rightarrow>
        (case kv of (key, v) \<Rightarrow>
           if key \<in> set (columns df)
           then (loc_set df row_mask key v, updated_fields @ [key @ '': '' @ str_val v])
           else (df, updated_fields)))"

definition apply_data_updates :: "dataframe \<Rightarrow> updates \<Rightarrow> py_error + dataframe \<times> string" where
  "apply_data_updates df updates =
     (if df_empty df then Inr (df, ''No data to update'')
      else
        (case select_rows df updates of
           Inl e \<Rightarrow> Inl e
         | Inr None \<Rightarrow>
             Inr (df, ''Could not identify which product to update. Please specify ProductID or product name.'')
         | Inr (Some row_mask) \<Rightarrow>
             if \<not> list_ex (\<lambda>m. m) row_mask then Inr (df, ''Product not found in inventory'')
             else
               (case foldl (apply_item row_mask) (df, []) updates of
                  (df', updated_fields) \<Rightarrow>
                    if updated_fields \<noteq> []
                    then Inr (df', ''Successfully updated: '' @ str_join '', '' updated_fields)
                    else Inr (df', ''No valid updates found''))))"

text \<open>The frame that the "Create Sample Data" button of app.py writes.\<close>

definition sample_df :: dataframe where
  "sample_df =
   [(''ProductID'', [IntV 11020, IntV 11021, IntV 11022, IntV 11023, IntV 11024]),
    (''ProductName'', [StrV ''Organic Apples'', StrV ''Premium Bananas'', StrV ''Fresh Oranges'',
                       StrV ''Organic Tomatoes'', StrV ''Green Lettuce'']),
    (''Location'', [StrV ''SectionA'', StrV ''SectionB'', StrV ''SectionA'', StrV ''SectionC'',
                    StrV ''SectionA'']),
    (''CurrentStock'', [IntV 5, IntV 0, IntV 75, IntV 15, IntV 25]),
    (''LastSoldDate'', [StrV ''2025-09-20'', StrV ''2025-09-19'', StrV ''2025-09-21'',
                        StrV ''2025-09-18'', StrV ''2025-09-22'']),
    (''ExpiryDate'', [StrV ''2025-09-25'', StrV ''2025-09-28'', StrV ''2025-10-15'',
                      StrV ''2025-09-23'', StrV ''2025-09-30'']),
    (''SalesLastMonth'', [IntV 45, IntV 0, IntV 120, IntV 80, IntV 95]),
    (''TotalSales'', [IntV 320, IntV 180, IntV 650, IntV 420, IntV 380]),
    (''FactoryDistanceKM'', [IntV 8, IntV 12, IntV 8, IntV 15, IntV 8])]"

subsection \<open>Persisting the frame\<close>

text \<open>
  What a save does to the file system is recorded as the list of the operations it issues.
  \<open>io_ok\<close> tells which operations succeed; one that fails raises, and nothing after it
  is issued. The flag returned with the trace tells whether all of them succeeded.
\<close>

datatype effect =
    Makedirs string
  | ToCsv string dataframe
  | Replace string string
  | SetLastUpdate

fun run :: "(effect \<Rightarrow> bool) \<Rightarrow> effect list \<Rightarrow> bool \<times> effect list" where
  "run io_ok [] = (True, [])"
| "run io_ok (e # es) =
     (if io_ok e then (case run io_ok es of (completed, issued) \<Rightarrow> (completed, e # issued))
      else (False, [e]))"

definition CSV_FILE_PATH :: string where
  "CSV_FILE_PATH = ''./data/inventory.csv''"

text \<open>\<open>os.path.dirname\<close>: the text up to the last slash, without trailing slashes unless
  it consists of slashes only.\<close>

definition dirname :: "string \<Rightarrow> string" where
  "dirname p =
     (let head = rev (dropWhile (\<lambda>c. c \<noteq> CHR ''/'') (rev p))
      in if head \<noteq> [] \<and> \<not> list_all (\<lambda>c. c = CHR ''/'') head
         then rev (dropWhile (\<lambda>c. c = CHR ''/'') (rev head)) else head)"

text \<open>\<open>save_inventory_data\<close> (app.py) returns \<open>True\<close>, or \<open>False\<close> when an operation
  raised.\<close>

definition save_inventory_data :: "(effect \<Rightarrow> bool) \<Rightarrow> dataframe \<Rightarrow> bool \<times> effect list" where
  "save_inventory_data io_ok df =
     run io_ok [Makedirs (dirname CSV_FILE_PATH), ToCsv CSV_FILE_PATH df, SetLastUpdate]"

text \<open>\<open>atomic_csv_update\<close> (data_generator.py) has no handler: the flag is \<open>False\<close> when
  it raised.\<close>

definition atomic_csv_update ::
  "(effect \<Rightarrow> bool) \<Rightarrow> dataframe \<Rightarrow> string \<Rightarrow> bool \<times> effect list" where
  "atomic_csv_update io_ok df csv_path =
     (let temp_path = csv_path @ ''.tmp''
      in run io_ok [ToCsv temp_path df, Replace temp_path csv_path])"

text \<open>
  The handler of the "Apply Updates" button in app.py, reached with the loaded frame when
  it is not empty: parse the command, apply it to a copy of the frame, and save when the
  copy differs from the loaded frame.
\<close>

datatype outcome =
    Saved string
  | SaveFailed
  | Warned string
  | ParseFailed
  | NoCommand
  | NoData

definition apply_updates_button ::
  "(effect \<Rightarrow> bool) \<Rightarrow> dataframe \<Rightarrow> string \<Rightarrow> py_error + outcome \<times> effect list" where
  "apply_updates_button io_ok df update_query =
     (if df_empty df then Inr (NoData, [])
      else if str_strip update_query = [] then Inr (NoCommand, [])
      else
        (let updates = parse_update_query update_query
         in if updates = [] then Inr (ParseFailed, [])
            else
              (case apply_data_updates df updates of
                 Inl e \<Rightarrow> Inl e
               | Inr (updated_df, message) \<Rightarrow>
                   if updated_df \<noteq> df
                   then (case save_inventory_data io_ok updated_df of
                           (saved, issued) \<Rightarrow>
                             Inr (if saved then Saved message else SaveFailed, issued))
                   else Inr (Warned message, []))))"

text \<open>
  A trace persists \<open>df\<close> to \<open>path\<close> by write-temp-then-rename when it writes \<open>df\<close> to
  some other path and later replaces \<open>path\<close> by that file; it writes \<open>path\<close> directly
  when it sends the CSV text to \<open>path\<close> itself.
\<close>

fun writes_directly :: "string \<Rightarrow> effect list \<Rightarrow> bool" where
  "writes_directly path [] = False"
| "writes_directly path (ToCsv p d # es) = (p = path \<or> writes_directly path es)"
| "writes_directly path (e # es) = writes_directly path es"

fun temp_then_rename :: "string \<Rightarrow> dataframe \<Rightarrow> effect list \<Rightarrow> bool" where
  "temp_then_rename path df [] = False"
| "temp_then_rename path df (ToCsv p d # es) =
     ((p \<noteq> path \<and> d = df \<and> Replace p path \<in> set es) \<or> temp_then_rename path df es)"
| "temp_then_rename path df (e # es) = temp_then_rename path df es"

section \<open>Document projector and prompt (main-fixed.py)\<close>

subsection \<open>Dates\<close>

text \<open>\<open>datetime.date\<close>: the proleptic Gregorian calendar, years 1 to 9999, and the day
  number \<open>toordinal\<close> whose differences are the \<open>days\<close> of a date subtraction.\<close>

datatype date = Date int int int

definition is_leap :: "int \<Rightarrow> bool" where
  "is_leap y = (y mod 4 = 0 \<and> (y mod 100 \<noteq> 0 \<or> y mod 400 = 0))"

definition DAYS_IN_MONTH :: "int list" where
  "DAYS_IN_MONTH = [31, 28, 31, 30, 31, 30, 31, 31, 30, 31, 30, 31]"

definition days_in_month :: "int \<Rightarrow> int \<Rightarrow> int" where
  "days_in_month y m = (if m = 2 \<and> is_leap y then 29 else DAYS_IN_MONTH ! nat (m - 1))"

definition days_before_year :: "int \<Rightarrow> int" where
  "days_before_year y = (y - 1) * 365 + (y - 1) div 4 - (y - 1) div 100 + (y - 1) div 400"

definition days_before_month :: "int \<Rightarrow> int \<Rightarrow> int" where
  "days_before_month y m =
     sum_list (take (nat (m - 1)) DAYS_IN_MONTH) + (if m > 2 \<and> is_leap y then 1 else 0)"

fun toordinal :: "date \<Rightarrow> int" where
  "toordinal (Date y m d) = days_before_year y + days_before_month y m + d"

definition make_date :: "int \<Rightarrow> int \<Rightarrow> int \<Rightarrow> date option" where
  "make_date y m d =
     (if 1 \<le> y \<and> y \<le> 9999 \<and> 1 \<le> m \<and> m \<le> 12 \<and> 1 \<le> d \<and> d \<le> days_in_month y m
      then Some (Date y m d) else None)"

text \<open>
  \<open>datetime.strptime(s, '%Y-%m-%d').date()\<close>. The format is compiled to the pattern
  \<open>(\d\d\d\d)-(1[0-2]|0[1-9]|[1-9])-(3[0-1]|[1-2]\d|0[1-9]|[1-9]| [1-9])\<close>, matched at the
  start of the string; text left over, or a day the month does not have, is a ValueError
  (\<open>None\<close>).
\<close>

definition ymd_format :: rx where
  "ymd_format =
     seq [Grp 1 (seq [One Digit, One Digit, One Digit, One Digit]),
          Lit ''-'',
          Grp 2 (Alt (Seq (Lit ''1'') (One (OneOf ''012'')))
                (Alt (Seq (Lit ''0'') (One (OneOf ''123456789'')))
                     (One (OneOf ''123456789'')))),
          Lit ''-'',
          Grp 3 (Alt (Seq (Lit ''3'') (One (OneOf ''01'')))
                (Alt (Seq (One (OneOf ''12'')) (One Digit))
                (Alt (Seq (Lit ''0'') (One (OneOf ''123456789'')))
                (Alt (One (OneOf ''123456789''))
                     (Seq (Lit '' '') (One (OneOf ''123456789'')))))))]"

definition strptime_ymd :: "string \<Rightarrow> date option" where
  "strptime_ymd s =
     (case re_match ymd_format s of
        None \<Rightarrow> None
      | Some (rest, m) \<Rightarrow>
          if rest \<noteq> [] then None
          else make_date (py_int (group m 1)) (py_int (group m 2)) (py_int (group m 3)))"

subsection \<open>\<open>create_document_text\<close>\<close>

text \<open>The four classifications and the priority are the \<open>if\<close>/\<open>elif\<close> chains of the
  function body, each on its own field.\<close>

definition stock_status :: "int \<Rightarrow> string" where
  "stock_status current_stock =
     (if current_stock = 0 then ''OUT OF STOCK''
      else if current_stock < 10 then ''CRITICAL LOW STOCK''
      else if current_stock < 50 then ''LOW STOCK''
      else ''ADEQUATE STOCK'')"

definition expiry_label :: "int \<Rightarrow> string" where
  "expiry_label days_to_expiry =
     (if days_to_expiry < 0 then ''EXPIRED''
      else if days_to_expiry \<le> 7 then ''EXPIRES SOON - URGENT''
      else if days_to_expiry \<le> 30 then ''EXPIRES THIS MONTH''
      else ''FRESH'')"

text \<open>The \<open>try\<close> block: any exception of the parse gives the unknown label. \<open>today\<close> is
  the wall-clock date at the time of the call (what \<open>date.today()\<close> would return); the
  body does not read it, \<open>current_date\<close> is the literal \<open>date(2025, 9, 22)\<close>.\<close>

definition expiry_status :: "date \<Rightarrow> string \<Rightarrow> string" where
  "expiry_status today expiry_date =
     (case strptime_ymd expiry_date of
        None \<Rightarrow> ''UNKNOWN EXPIRY''
      | Some expiry \<Rightarrow>
          (let current_date = Date 2025 9 22;
               days_to_expiry = toordinal expiry - toordinal current_date
           in expiry_label days_to_expiry))"

definition demand_status :: "int \<Rightarrow> string" where
  "demand_status sales_last_month =
     (if sales_last_month > 100 then ''HIGH DEMAND''
      else if sales_last_month > 50 then ''MEDIUM DEMAND''
      else if sales_last_month > 0 then ''LOW DEMAND''
      else ''NO RECENT SALES'')"

definition distance_status :: "int \<Rightarrow> string" where
  "distance_status factory_distance_km =
     (if factory_distance_km \<le> 5 then ''CLOSE TO FACTORY''
      else if factory_distance_km \<le> 15 then ''MODERATE DISTANCE''
      else ''FAR FROM FACTORY'')"

definition priority :: "string \<Rightarrow> string \<Rightarrow> string" where
  "priority stock expiry =
     (if stock \<in> set [''CRITICAL LOW STOCK'', ''OUT OF STOCK''] \<or> expiry = ''EXPIRES SOON - URGENT''
      then ''HIGH PRIORITY'' else ''NORMAL PRIORITY'')"

text \<open>The rendered template, with the labels as parameters.\<close>

definition document_text ::
  "int \<Rightarrow> string \<Rightarrow> string \<Rightarrow> int \<Rightarrow> string \<Rightarrow> string \<Rightarrow> int \<Rightarrow> int \<Rightarrow> int \<Rightarrow>
   string \<Rightarrow> string \<Rightarrow> string \<Rightarrow> string \<Rightarrow> string" where
  "document_text product_id product_name location current_stock last_sold_date expiry_date
     sales_last_month total_sales factory_distance_km stock expiry demand distance =
     concat
      [nl, ''Product Information:'', nl,
       ''Product ID: '', str_int product_id, nl,
       ''Product Name: '', product_name, nl,
       ''Location: '', location, nl,
       ''Current Stock: '', str_int current_stock, '' units ('', stock, '')'', nl,
       ''Last Sold Date: '', last_sold_date, nl,
       ''Expiry Date: '', expiry_date, '' ('', expiry, '')'', nl,
       ''Sales Last Month: '', str_int sales_last_month, '' units ('', demand, '')'', nl,
       ''Total Sales: '', str_int total_sales, '' units'', nl,
       ''Factory Distance: '', str_int factory_distance_km, '' km ('', distance, '')'', nl,
       ''Status Summary: '', stock, '', '', expiry, '', '', demand, nl,
       ''Priority: '', priority stock expiry, nl]"

definition create_document_text ::
  "date \<Rightarrow> int \<Rightarrow> string \<Rightarrow> string \<Rightarrow> int \<Rightarrow> string \<Rightarrow> string \<Rightarrow> int \<Rightarrow> int \<Rightarrow> int \<Rightarrow> string" where
  "create_document_text today product_id product_name location current_stock last_sold_date
     expiry_date sales_last_month total_sales factory_distance_km =
     str_strip
       (document_text product_id product_name location current_stock last_sold_date
          expiry_date sales_last_month total_sales factory_distance_km
          (stock_status current_stock) (expiry_status today expiry_date)
          (demand_status sales_last_month) (distance_status factory_distance_km))"

subsection \<open>\<open>build_warehouse_prompt\<close>\<close>









section \<open>Vocabulary of the properties\<close>

text \<open>The groups of a match are drawn from a set of characters when every captured text
  consists of such characters; \<open>lowered\<close> are the characters that \<open>lower\<close> leaves alone.\<close>

definition drawn_from :: "char set \<Rightarrow> groups \<Rightarrow> bool" where
  "drawn_from U g = (\<forall>(i, t) \<in> set g. set t \<subseteq> U)"

definition lowered :: "char set" where
  "lowered = {c. lower_char c = c}"

text \<open>The entries of an update whose key is a column of the frame, the frame after writing
  a list of entries into the selected rows, and the report of one written field.\<close>

definition applicable :: "dataframe \<Rightarrow> updates \<Rightarrow> updates" where
  "applicable df updates = filter (\<lambda>(key, v). key \<in> set (columns df)) updates"

definition write_all :: "bool list \<Rightarrow> dataframe \<Rightarrow> updates \<Rightarrow> dataframe" where
  "write_all row_mask df updates = foldl (\<lambda>d (key, v). loc_set d row_mask key v) df updates"

definition field_report :: "string \<times> val \<Rightarrow> string" where
  "field_report kv = (case kv of (key, v) \<Rightarrow> key @ '': '' @ str_val v)"

text \<open>An update in which a rename carries its new name: \<open>old_name\<close> never occurs
  without \<open>ProductName\<close>.\<close>

definition renamed_with_name :: "updates \<Rightarrow> bool" where
  "renamed_with_name d =
     (''old_name'' \<notin> set (map fst d) \<or> ''ProductName'' \<in> set (map fst d))"


section \<open>Properties\<close>

subsection \<open>Stock classification\<close>

text \<open>
  C2 (as the claim lists it, refuted): the claim maps a stock of exactly 10 to the
  critical-low label. The code tests \<open>current_stock < 10\<close>, so 10 is already LOW STOCK.
\<close>

theorem stock_status_ten_counterexample:
  "stock_status 10 \<noteq> ''CRITICAL LOW STOCK''"
  by (simp add: stock_status_def)

text \<open>
  C2 (amended): stock values 0, 9, 10, 49, 50 are labelled OUT OF STOCK, CRITICAL LOW STOCK,
  LOW STOCK, LOW STOCK, ADEQUATE STOCK; in general 0 is out of stock, any other value
  strictly below 10 is critical low, any value from 10 strictly below 50 is low, and
  every value from 50 on is adequate.
\<close>

theorem stock_status_boundaries:
  "stock_status 0 = ''OUT OF STOCK'' \<and>
   stock_status 9 = ''CRITICAL LOW STOCK'' \<and>
   stock_status 10 = ''LOW STOCK'' \<and>
   stock_status 49 = ''LOW STOCK'' \<and>
   stock_status 50 = ''ADEQUATE STOCK'' \<and>
   stock_status n =
     (if n = 0 then ''OUT OF STOCK''
      else if n < 10 then ''CRITICAL LOW STOCK''
      else if n < 50 then ''LOW STOCK''
      else ''ADEQUATE STOCK'')"
  by (simp add: stock_status_def)

subsection \<open>What a match can capture\<close>

text \<open>Every path of a pattern leaves a remainder made of characters of the text it read,
  and captures only characters of that text.\<close>

lemma startswith_drop: "startswith s l \<Longrightarrow> s = l @ drop (length l) s"
  by (induction s l rule: startswith.induct) auto

lemma rep_greedy_subset: "r \<in> set (rep_greedy k n s) \<Longrightarrow> set r \<subseteq> set s"
  by (induction s arbitrary: n) (auto split: if_splits)

lemma rep_lazy_subset: "r \<in> set (rep_lazy k n s) \<Longrightarrow> set r \<subseteq> set s"
  by (induction s arbitrary: n) (auto split: if_splits)

lemma paths_drawn:
  "(r, g') \<in> set (paths x (s, g)) \<Longrightarrow> set s \<subseteq> U \<Longrightarrow> drawn_from U g
     \<Longrightarrow> set r \<subseteq> set s \<and> drawn_from U g'"
proof (induction x arbitrary: s g r g')
  case (Lit l)
  then show ?case by (auto split: if_splits dest: in_set_dropD)
next
  case (One k)
  then show ?case by (auto split: list.splits if_splits)
next
  case (Rep k n greedy)
  then show ?case by (auto split: if_splits dest: rep_greedy_subset rep_lazy_subset)
next
  case (Seq a b)
  from Seq.prems(1) obtain r1 g1 where
    a: "(r1, g1) \<in> set (paths a (s, g))" and b: "(r, g') \<in> set (paths b (r1, g1))"
    by auto
  from Seq.IH(1)[OF a Seq.prems(2,3)] have s1: "set r1 \<subseteq> set s" and d1: "drawn_from U g1"
    by auto
  from s1 Seq.prems(2) have u1: "set r1 \<subseteq> U" by auto
  from Seq.IH(2)[OF b u1 d1] s1 show ?case by auto
next
  case (Alt a b)
  from Alt.prems(1) have "(r, g') \<in> set (paths a (s, g)) \<or> (r, g') \<in> set (paths b (s, g))"
    by auto
  then show ?case using Alt.IH(1)[OF _ Alt.prems(2,3)] Alt.IH(2)[OF _ Alt.prems(2,3)] by blast
next
  case (Opt a)
  from Opt.prems(1) have "(r, g') \<in> set (paths a (s, g)) \<or> (r, g') = (s, g)"
    by auto
  then show ?case using Opt.IH[OF _ Opt.prems(2,3)] Opt.prems(3) by blast
next
  case (Grp i a)
  from Grp.prems(1) obtain g1 where
    a: "(r, g1) \<in> set (paths a (s, g))" and g': "g' = (i, take (length s - length r) s) # g1"
    by auto
  from Grp.IH[OF a Grp.prems(2,3)] have s1: "set r \<subseteq> set s" and d1: "drawn_from U g1"
    by auto
  have "set (take (length s - length r) s) \<subseteq> U"
    using set_take_subset[of "length s - length r" s] Grp.prems(2) by auto
  with d1 g' s1 show ?case by (auto simp: drawn_from_def)
qed

lemma re_match_drawn: "re_match x s = Some (r, g) \<Longrightarrow> set s \<subseteq> U \<Longrightarrow> drawn_from U g"
proof -
  assume m: "re_match x s = Some (r, g)" and u: "set s \<subseteq> U"
  from m have "(r, g) \<in> set (paths x (s, []))"
    by (auto simp: re_match_def split: list.splits)
  from paths_drawn[OF this u] show ?thesis by (simp add: drawn_from_def)
qed

lemma re_search_drawn: "re_search x s = Some g \<Longrightarrow> set s \<subseteq> U \<Longrightarrow> drawn_from U g"
proof (induction s)
  case Nil
  then show ?case by (cases "re_match x []") (auto dest: re_match_drawn)
next
  case (Cons c cs)
  show ?case
  proof (cases "re_match x (c # cs)")
    case None
    with Cons show ?thesis by auto
  next
    case (Some m)
    with Cons.prems have "re_match x (c # cs) = Some (fst m, g)" by auto
    from re_match_drawn[OF this Cons.prems(2)] show ?thesis .
  qed
qed

lemma group_drawn: "drawn_from U g \<Longrightarrow> set (group g i) \<subseteq> U"
proof (cases "map_of g i")
  case None
  then show ?thesis by (simp add: group_def)
next
  case (Some t)
  assume d: "drawn_from U g"
  from Some have "(i, t) \<in> set g" by (rule map_of_SomeD)
  with d have "set t \<subseteq> U" by (auto simp: drawn_from_def)
  with Some show ?thesis by (simp add: group_def)
qed

subsection \<open>Lower case\<close>

lemma lowercase_not_uppercase: "l \<in> set ascii_lowercase \<Longrightarrow> l \<notin> set ascii_uppercase"
  unfolding ascii_lowercase_def ascii_uppercase_def by (simp, elim disjE) simp_all

lemma lower_char_idem: "lower_char (lower_char c) = lower_char c"
proof (cases "map_of (zip ascii_uppercase ascii_lowercase) c")
  case None
  then show ?thesis by (simp add: lower_char_def)
next
  case (Some l)
  then have "(c, l) \<in> set (zip ascii_uppercase ascii_lowercase)" by (rule map_of_SomeD)
  then have "l \<in> set ascii_lowercase" by (rule set_zip_rightD)
  then have "l \<notin> set ascii_uppercase" by (rule lowercase_not_uppercase)
  then have "l \<notin> fst ` set (zip ascii_uppercase ascii_lowercase)"
    by (auto dest: set_zip_leftD)
  then have "map_of (zip ascii_uppercase ascii_lowercase) l = None"
    by (simp add: map_of_eq_None_iff)
  with Some show ?thesis by (simp add: lower_char_def)
qed

lemma str_strip_subset: "set (str_strip s) \<subseteq> set s"
proof -
  have "set (dropWhile isspace (rev (dropWhile isspace s))) \<subseteq> set (rev (dropWhile isspace s))"
    by (auto dest: set_dropWhileD)
  also have "\<dots> \<subseteq> set s" by (auto dest: set_dropWhileD)
  finally show ?thesis by (simp add: str_strip_def)
qed

lemma query_lowered: "set (str_strip (str_lower q)) \<subseteq> lowered"
  using str_strip_subset[of "str_lower q"]
  by (auto simp: lowered_def str_lower_def lower_char_idem)

lemma lowered_str: "set t \<subseteq> lowered \<Longrightarrow> str_lower t = t"
  by (induction t) (auto simp: str_lower_def lowered_def)

lemma dict_set_subset: "set (dict_set d k v) \<subseteq> insert (k, v) (set d)"
  by (auto simp: dict_set_def split: if_splits)

lemma extract_field_cases:
  assumes "re_search pattern q = Some g"
  shows "extract_field q d (field, pattern) = d
       \<or> (\<exists>k' n. extract_field q d (field, pattern) = dict_set d k' (IntV n))
       \<or> (\<exists>k' i. extract_field q d (field, pattern) = dict_set d k' (StrV (group g i)))
       \<or> (\<exists>k1 i1 k2 i2. extract_field q d (field, pattern)
             = dict_set (dict_set d k1 (StrV (group g i1))) k2 (StrV (group g i2)))"
  using assms unfolding extract_field_def by (simp del: set_simps list.set) blast

lemma dict_set_member:
  "(k, v) \<in> set (dict_set d k' v') \<Longrightarrow> (k, v) \<in> set d \<or> v = v'"
  using dict_set_subset[of d k' v'] by auto

lemma extract_field_values:
  assumes u: "set q \<subseteq> U" and m: "(k, StrV t) \<in> set (extract_field q d fp)"
  shows "(k, StrV t) \<in> set d \<or> set t \<subseteq> U"
proof (cases fp)
  case (Pair field pattern)
  show ?thesis
  proof (cases "re_search pattern q")
    case None
    with m Pair show ?thesis by (simp add: extract_field_def)
  next
    case (Some g)
    from re_search_drawn[OF Some u] have gr: "\<And>i. set (group g i) \<subseteq> U"
      by (rule group_drawn)
    from extract_field_cases[OF Some, of d field] consider
        (same) "extract_field q d fp = d"
      | (int) k' n where "extract_field q d fp = dict_set d k' (IntV n)"
      | (str) k' i where "extract_field q d fp = dict_set d k' (StrV (group g i))"
      | (two) k1 i1 k2 i2 where "extract_field q d fp
             = dict_set (dict_set d k1 (StrV (group g i1))) k2 (StrV (group g i2))"
      unfolding Pair by blast
    then show ?thesis
    proof cases
      case same
      with m show ?thesis by simp
    next
      case int
      with m dict_set_member[of k "StrV t" d k' "IntV n"] show ?thesis by simp
    next
      case str
      with m dict_set_member[of k "StrV t" d k' "StrV (group g i)"] gr[of i]
      show ?thesis by auto
    next
      case two
      with m dict_set_member[of k "StrV t" "dict_set d k1 (StrV (group g i1))" k2 "StrV (group g i2)"]
      have "(k, StrV t) \<in> set (dict_set d k1 (StrV (group g i1))) \<or> t = group g i2" by auto
      with dict_set_member[of k "StrV t" d k1 "StrV (group g i1)"] gr[of i1] gr[of i2]
      show ?thesis by auto
    qed
  qed
qed

lemma foldl_extract_field_values:
  "set q \<subseteq> U \<Longrightarrow> (k, StrV t) \<in> set (foldl (extract_field q) d ps)
     \<Longrightarrow> (k, StrV t) \<in> set d \<or> set t \<subseteq> U"
proof (induction ps arbitrary: d)
  case Nil
  then show ?case by simp
next
  case (Cons p ps)
  from Cons.IH[OF Cons.prems(1), of "extract_field q d p"] Cons.prems(2)
  have "(k, StrV t) \<in> set (extract_field q d p) \<or> set t \<subseteq> U" by simp
  with extract_field_values[OF Cons.prems(1)] show ?case by blast
qed

lemma parse_values_lowered:
  "(k, StrV t) \<in> set (parse_update_query q) \<Longrightarrow> str_lower t = t"
proof -
  assume m: "(k, StrV t) \<in> set (parse_update_query q)"
  let ?q = "str_strip (str_lower q)"
  let ?d = "case re_search product_id_pattern ?q of
              Some m \<Rightarrow> dict_set [] ''ProductID'' (IntV (py_int (group m 1)))
            | None \<Rightarrow> []"
  from m have "(k, StrV t) \<in> set (foldl (extract_field ?q) ?d patterns)"
    by (simp add: parse_update_query_def Let_def)
  from foldl_extract_field_values[OF query_lowered this]
  have "(k, StrV t) \<in> set ?d \<or> set t \<subseteq> lowered" .
  moreover have "(k, StrV t) \<notin> set ?d"
    by (auto simp: dict_set_def split: option.splits)
  ultimately show ?thesis by (auto intro: lowered_str)
qed

subsection \<open>Parsing a command\<close>

text \<open>
  C4: the command "Update product 11023 stock to 50" parses to exactly the two entries
  ProductID 11023 and CurrentStock 50.
\<close>

theorem parse_stock_command:
  "parse_update_query ''Update product 11023 stock to 50''
     = [(''ProductID'', IntV 11023), (''CurrentStock'', IntV 50)]"
  by code_simp

subsection \<open>Writing into the frame\<close>

lemma columns_loc_set: "columns (loc_set df m k v) = columns df"
  by (induction df) (auto simp: columns_def loc_set_def)

lemma loc_set_absent: "k \<notin> set (columns df) \<Longrightarrow> loc_set df m k v = df"
  by (induction df) (auto simp: columns_def loc_set_def)

lemma map_of_loc_set:
  "map_of (loc_set df m k v) c =
     (if c = k then map_option (\<lambda>col. map (\<lambda>(b, x). if b then v else x) (zip m col)) (map_of df c)
      else map_of df c)"
  by (induction df) (auto simp: loc_set_def)

lemma nrows_loc_set: "length m = nrows df \<Longrightarrow> nrows (loc_set df m k v) = nrows df"
  by (cases df) (auto simp: nrows_def loc_set_def)

lemma wf_column_length: "wf df \<Longrightarrow> map_of df c = Some col \<Longrightarrow> length col = nrows df"
  by (auto simp: wf_def list_all_iff dest!: map_of_SomeD)

lemma wf_loc_set: "wf df \<Longrightarrow> length m = nrows df \<Longrightarrow> wf (loc_set df m k v)"
proof -
  assume w: "wf df" and l: "length m = nrows df"
  have "length col = nrows df" if "(c, col) \<in> set (loc_set df m k v)" for c col
  proof -
    from that obtain col0 where in0: "(c, col0) \<in> set df"
      and col: "col = (if c = k then map (\<lambda>(b, x). if b then v else x) (zip m col0) else col0)"
      by (auto simp: loc_set_def split: if_splits)
    from w in0 have "length col0 = nrows df" by (auto simp: wf_def list_all_iff)
    with col l show ?thesis by auto
  qed
  with w l show ?thesis
    by (auto simp: wf_def columns_loc_set nrows_loc_set list_all_iff)
qed

lemma cell_loc_set:
  assumes "wf df" "length m = nrows df" "i < nrows df"
  shows "cell (loc_set df m k v) c i
           = (if c = k \<and> c \<in> set (columns df) \<and> m ! i then v else cell df c i)"
proof (cases "map_of df c")
  case None
  then have "c \<notin> set (columns df)" by (simp add: map_of_eq_None_iff columns_def)
  with None show ?thesis by (auto simp: cell_def map_of_loc_set)
next
  case (Some col)
  then have "c \<in> set (columns df)"
    by (auto simp: columns_def dest!: map_of_SomeD intro: rev_image_eqI)
  moreover from wf_column_length[OF assms(1) Some] assms have "i < length col" "i < length m"
    by auto
  ultimately show ?thesis using Some by (auto simp: cell_def map_of_loc_set)
qed

lemma columns_write_all: "columns (write_all m df us) = columns df"
  unfolding write_all_def
  by (induction us arbitrary: df) (auto simp: columns_loc_set)

lemma nrows_write_all: "length m = nrows df \<Longrightarrow> nrows (write_all m df us) = nrows df"
  unfolding write_all_def
  by (induction us arbitrary: df) (auto simp: nrows_loc_set)

lemma write_all_applicable: "write_all m df (applicable df us) = write_all m df us"
  unfolding write_all_def applicable_def
proof (induction us arbitrary: df)
  case Nil
  then show ?case by simp
next
  case (Cons kv us)
  obtain k v where kv: "kv = (k, v)" by (cases kv)
  show ?case
  proof (cases "k \<in> set (columns df)")
    case True
    with Cons[of "loc_set df m k v"] kv show ?thesis by (simp add: columns_loc_set)
  next
    case False
    with Cons[of df] kv show ?thesis by (simp add: loc_set_absent)
  qed
qed

lemma unmapped_write_all:
  "c \<notin> set (map fst us) \<Longrightarrow> map_of (write_all m df us) c = map_of df c"
  unfolding write_all_def
  by (induction us arbitrary: df) (auto simp: map_of_loc_set)

lemma cell_write_all:
  assumes "wf df" "length m = nrows df" "i < nrows df" "distinct (map fst us)"
  shows "cell (write_all m df us) c i
           = (case map_of us c of
                Some v \<Rightarrow> if m ! i \<and> c \<in> set (columns df) then v else cell df c i
              | None \<Rightarrow> cell df c i)"
  using assms unfolding write_all_def
proof (induction us arbitrary: df)
  case Nil
  then show ?case by simp
next
  case (Cons kv us)
  obtain k v where kv: "kv = (k, v)" by (cases kv)
  let ?d = "loc_set df m k v"
  have wf': "wf ?d" and n': "length m = nrows ?d" and i': "i < nrows ?d"
    using Cons.prems by (simp_all add: wf_loc_set nrows_loc_set)
  from Cons.prems(4) kv have dist: "distinct (map fst us)" and fresh: "k \<notin> set (map fst us)"
    by auto
  from fresh have none: "map_of us k = None" by (simp add: map_of_eq_None_iff)
  have "cell (foldl (\<lambda>d (key, v). loc_set d m key v) ?d us) c i
          = (case map_of us c of
               Some v \<Rightarrow> if m ! i \<and> c \<in> set (columns ?d) then v else cell ?d c i
             | None \<Rightarrow> cell ?d c i)"
    by (rule Cons.IH[OF wf' n' i' dist])
  then show ?case
    using kv none cell_loc_set[OF Cons.prems(1,2,3), of k v c]
    by (auto simp: columns_loc_set split: option.splits)
qed

lemma foldl_apply_item:
  "foldl (apply_item m) (df, fs) us
     = (write_all m df (applicable df us), fs @ map field_report (applicable df us))"
proof (induction us arbitrary: df fs)
  case Nil
  then show ?case by (simp add: write_all_def applicable_def)
next
  case (Cons kv us)
  obtain k v where kv: "kv = (k, v)" by (cases kv)
  show ?case
  proof (cases "k \<in> set (columns df)")
    case True
    then have "apply_item m (df, fs) kv = (loc_set df m k v, fs @ [field_report (k, v)])"
      by (simp add: apply_item_def kv field_report_def)
    with Cons[of "loc_set df m k v" "fs @ [field_report (k, v)]"] True kv show ?thesis
      by (simp add: applicable_def columns_loc_set write_all_def)
  next
    case False
    then have "apply_item m (df, fs) kv = (df, fs)"
      by (simp add: apply_item_def kv)
    with Cons[of df fs] False kv show ?thesis
      by (simp add: applicable_def)
  qed
qed

lemma apply_data_updates_resolved:
  assumes "\<not> df_empty df" "select_rows df updates = Inr (Some row_mask)"
    "list_ex (\<lambda>m. m) row_mask"
  shows "apply_data_updates df updates
           = Inr (write_all row_mask df (applicable df updates),
                  if applicable df updates = [] then ''No valid updates found''
                  else ''Successfully updated: ''
                         @ str_join '', '' (map field_report (applicable df updates)))"
  using assms by (simp add: apply_data_updates_def foldl_apply_item)

lemma map_fst_overwrite:
  "map fst (map (\<lambda>(k', v'). if k' = k then (k', v) else (k', v')) d) = map fst d"
  by (induction d) auto

lemma keys_dict_set: "fst ` set (dict_set d k v) = insert k (fst ` set d)"
proof (cases "k \<in> set (map fst d)")
  case True
  then have "map fst (dict_set d k v) = map fst d"
    by (simp only: dict_set_def if_True map_fst_overwrite)
  then have "set (map fst (dict_set d k v)) = set (map fst d)" by simp
  with True show ?thesis by auto
next
  case False
  then show ?thesis by (simp add: dict_set_def)
qed

lemma field_key_values:
  "field_key ''current_stock'' = ''CurrentStock''"
  "field_key ''sales_last_month'' = ''SalesLastMonth''"
  "field_key ''factory_distance'' = ''FactoryDistance''"
  "field_key ''last_sold_date'' = ''LastSoldDate''"
  "field_key ''expiry_date'' = ''ExpiryDate''"
  by code_simp+

lemma extract_field_renamed:
  assumes "renamed_with_name d"
  shows "renamed_with_name (extract_field q d fp)"
proof (cases fp)
  case (Pair field pattern)
  show ?thesis
  proof (cases "re_search pattern q")
    case None
    with assms Pair show ?thesis by (simp add: extract_field_def)
  next
    case (Some g)
    consider (name) "field = ''product_name''"
      | (int) "field \<noteq> ''product_name''"
          "field \<in> set [''current_stock'', ''sales_last_month'', ''factory_distance'']"
      | (date) "field \<noteq> ''product_name''"
          "field \<notin> set [''current_stock'', ''sales_last_month'', ''factory_distance'']"
          "field \<in> set [''last_sold_date'', ''expiry_date'']"
      | (loc) "field \<noteq> ''product_name''"
          "field \<notin> set [''current_stock'', ''sales_last_month'', ''factory_distance'']"
          "field \<notin> set [''last_sold_date'', ''expiry_date'']" "field = ''location''"
      | (other) "field \<noteq> ''product_name''"
          "field \<notin> set [''current_stock'', ''sales_last_month'', ''factory_distance'']"
          "field \<notin> set [''last_sold_date'', ''expiry_date'']" "field \<noteq> ''location''"
      by blast
    then show ?thesis
    proof cases
      case name
      then have "extract_field q d fp
          = dict_set (dict_set d ''old_name'' (StrV (group g 1))) ''ProductName'' (StrV (group g 2))"
        by (simp add: extract_field_def Pair Some)
      then show ?thesis by (simp add: renamed_with_name_def keys_dict_set)
    next
      case int
      then have e: "extract_field q d fp = dict_set d (field_key field) (IntV (py_int (group g 1)))"
        by (simp add: extract_field_def Pair Some)
      from int(2) have "field_key field \<noteq> ''old_name''"
        by (auto simp: field_key_values)
      with assms show ?thesis unfolding e by (auto simp: renamed_with_name_def keys_dict_set)
    next
      case date
      then have e: "extract_field q d fp = dict_set d (field_key field) (StrV (group g 1))"
        by (simp add: extract_field_def Pair Some)
      from date(3) have "field_key field \<noteq> ''old_name''"
        by (auto simp: field_key_values)
      with assms show ?thesis unfolding e by (auto simp: renamed_with_name_def keys_dict_set)
    next
      case loc
      then have e: "extract_field q d fp = dict_set d ''Location'' (StrV (group g 1))"
        by (simp add: extract_field_def Pair Some)
      from assms show ?thesis unfolding e by (auto simp: renamed_with_name_def keys_dict_set)
    next
      case other
      then have "extract_field q d fp = d"
        by (simp add: extract_field_def Pair Some)
      with assms show ?thesis by simp
    qed
  qed
qed

lemma foldl_extract_field_renamed:
  "renamed_with_name d \<Longrightarrow> renamed_with_name (foldl (extract_field q) d ps)"
  by (induction ps arbitrary: d) (simp_all add: extract_field_renamed)

lemma parse_update_query_renamed: "renamed_with_name (parse_update_query q)"
proof -
  let ?q = "str_strip (str_lower q)"
  let ?d = "case re_search product_id_pattern ?q of
              Some m \<Rightarrow> dict_set [] ''ProductID'' (IntV (py_int (group m 1)))
            | None \<Rightarrow> []"
  have "renamed_with_name ?d"
    by (auto simp: renamed_with_name_def dict_set_def split: option.splits)
  then have "renamed_with_name (foldl (extract_field ?q) ?d patterns)"
    by (rule foldl_extract_field_renamed)
  then show ?thesis by (simp add: parse_update_query_def Let_def)
qed

lemma getitem_column: "getitem df k = Inr col \<Longrightarrow> k \<in> set (columns df)"
  by (auto simp: getitem_def columns_def split: option.splits dest!: map_of_SomeD
           intro: rev_image_eqI)

lemma selector_column:
  assumes "select_rows df us = Inr (Some m)"
  shows "(''ProductID'' \<in> set (map fst us) \<and> ''ProductID'' \<in> set (columns df))
       \<or> (''old_name'' \<in> set (map fst us) \<and> ''ProductName'' \<in> set (columns df))"
proof (cases "''ProductID'' \<in> set (map fst us)")
  case True
  with assms obtain col where "getitem df ''ProductID'' = Inr col"
    by (auto simp: select_rows_def split: sum.splits)
  with True show ?thesis by (auto dest: getitem_column)
next
  case False
  with assms have o: "''old_name'' \<in> set (map fst us)"
    by (auto simp: select_rows_def split: if_splits)
  with False assms obtain col where "getitem df ''ProductName'' = Inr col"
    by (auto simp: select_rows_def split: sum.splits)
  with o show ?thesis by (auto dest: getitem_column)
qed

lemma applicable_nonempty:
  "k \<in> set (map fst us) \<Longrightarrow> k \<in> set (columns df) \<Longrightarrow> applicable df us \<noteq> []"
  by (auto simp: applicable_def filter_empty_conv)

lemma no_valid_updates_only_unresolved_fields:
  assumes "apply_data_updates df us = Inr (df', ''No valid updates found'')"
  shows "\<exists>m. select_rows df us = Inr (Some m) \<and> applicable df us = []"
proof (cases "df_empty df")
  case True
  with assms show ?thesis by (simp add: apply_data_updates_def)
next
  case False
  show ?thesis
  proof (cases "select_rows df us")
    case (Inl e)
    with assms False show ?thesis by (simp add: apply_data_updates_def)
  next
    case (Inr sel)
    show ?thesis
    proof (cases sel)
      case None
      with assms False Inr show ?thesis by (simp add: apply_data_updates_def)
    next
      case (Some m)
      show ?thesis
      proof (cases "list_ex (\<lambda>m. m) m")
        case True
        from apply_data_updates_resolved[OF False Inr[unfolded Some] True] assms
        have "applicable df us = []" by (simp split: if_splits)
        with Inr Some show ?thesis by simp
      next
        case nf: False
        with assms False Inr Some show ?thesis by (simp add: apply_data_updates_def)
      qed
    qed
  qed
qed

lemma parsed_update_never_rejected:
  "apply_data_updates df (parse_update_query q) \<noteq> Inr (df', ''No valid updates found'')"
proof
  assume "apply_data_updates df (parse_update_query q) = Inr (df', ''No valid updates found'')"
  from no_valid_updates_only_unresolved_fields[OF this] obtain m where
    sel: "select_rows df (parse_update_query q) = Inr (Some m)"
    and none: "applicable df (parse_update_query q) = []" by blast
  from selector_column[OF sel] parse_update_query_renamed[of q]
  obtain k where "k \<in> set (map fst (parse_update_query q))" "k \<in> set (columns df)"
    unfolding renamed_with_name_def by blast
  from applicable_nonempty[OF this] none show False by contradiction
qed

text \<open>
  C3 (the code departs from it): the loop over the update counts the selector as a field.
  The command "Update product 11023 factory distance to 5" names the field FactoryDistance,
  which is no column (the column is FactoryDistanceKM), so no field of the command is
  applied and the frame is unchanged; yet the result reports "Successfully updated:
  ProductID: 11023". The same holds for the command "Update product 11023", which names no
  field at all. No command whatever is answered with "No valid updates found".
\<close>

theorem selector_reported_as_update:
  "parse_update_query ''Update product 11023 factory distance to 5''
     = [(''ProductID'', IntV 11023), (''FactoryDistance'', IntV 5)]
   \<and> apply_data_updates sample_df
         (parse_update_query ''Update product 11023 factory distance to 5'')
       = Inr (sample_df, ''Successfully updated: ProductID: 11023'')
   \<and> parse_update_query ''Update product 11023'' = [(''ProductID'', IntV 11023)]
   \<and> apply_data_updates sample_df (parse_update_query ''Update product 11023'')
       = Inr (sample_df, ''Successfully updated: ProductID: 11023'')
   \<and> (\<forall>q df df'. apply_data_updates df (parse_update_query q)
                     \<noteq> Inr (df', ''No valid updates found''))"
proof -
  let ?m = "[False, False, False, True, False]"
  let ?u1 = "[(''ProductID'', IntV 11023), (''FactoryDistance'', IntV 5)]"
  let ?u2 = "[(''ProductID'', IntV 11023)]"
  have p1: "parse_update_query ''Update product 11023 factory distance to 5'' = ?u1"
    by code_simp
  have p2: "parse_update_query ''Update product 11023'' = ?u2"
    by code_simp
  have ne: "\<not> df_empty sample_df" by code_simp
  have s1: "select_rows sample_df ?u1 = Inr (Some ?m)" by code_simp
  have s2: "select_rows sample_df ?u2 = Inr (Some ?m)" by code_simp
  have a1: "applicable sample_df ?u1 = ?u2" by code_simp
  have a2: "applicable sample_df ?u2 = ?u2" by code_simp
  have w: "write_all ?m sample_df ?u2 = sample_df" by code_simp
  have r: "field_report (''ProductID'', IntV 11023) = ''ProductID: 11023''"
    by (simp add: field_report_def str_int_def str_nat.simps digits_def)
  have "apply_data_updates sample_df ?u1
          = Inr (sample_df, ''Successfully updated: ProductID: 11023'')"
    using apply_data_updates_resolved[OF ne s1] by (simp add: a1 w r)
  moreover have "apply_data_updates sample_df ?u2
          = Inr (sample_df, ''Successfully updated: ProductID: 11023'')"
    using apply_data_updates_resolved[OF ne s2] by (simp add: a2 w r)
  ultimately show ?thesis
    using parsed_update_never_rejected by (simp add: p1 p2)
qed

lemma val_eq_IntV: "val_eq x (IntV n) = (x = IntV n)"
  by (cases x) auto

lemma val_eq_StrV: "val_eq x (StrV t) = (x = StrV t)"
  by (cases x) auto

lemma column_of: "c \<in> set (columns df) \<Longrightarrow> \<exists>col. map_of df c = Some col"
  by (cases "map_of df c") (auto simp: map_of_eq_None_iff columns_def)

lemma positive_rows_not_empty: "i < nrows df \<Longrightarrow> \<not> df_empty df"
  by (auto simp: df_empty_def nrows_def)

text \<open>
  C5: in a well-formed frame that has the columns ProductID and CurrentStock and a record
  with ProductID 11023, applying the update (ProductID 11023, CurrentStock 50) succeeds and
  sets CurrentStock to 50 in every record whose ProductID is 11023; every other cell of the
  frame, in those records and in all others, keeps its value.
\<close>

theorem update_stock_frame:
  assumes w: "wf df"
    and pc: "''ProductID'' \<in> set (columns df)"
    and cc: "''CurrentStock'' \<in> set (columns df)"
    and ex: "\<exists>i < nrows df. cell df ''ProductID'' i = IntV 11023"
  shows "\<exists>df'. apply_data_updates df [(''ProductID'', IntV 11023), (''CurrentStock'', IntV 50)]
                  = Inr (df', ''Successfully updated: ProductID: 11023, CurrentStock: 50'')
           \<and> columns df' = columns df \<and> nrows df' = nrows df
           \<and> (\<forall>c i. i < nrows df \<longrightarrow>
                 cell df' c i = (if c = ''CurrentStock'' \<and> cell df ''ProductID'' i = IntV 11023
                                 then IntV 50 else cell df c i))"
proof -
  let ?us = "[(''ProductID'', IntV 11023), (''CurrentStock'', IntV 50)]"
  from column_of[OF pc] obtain col where col: "map_of df ''ProductID'' = Some col" ..
  let ?m = "map (\<lambda>x. val_eq x (IntV 11023)) col"
  have len: "length ?m = nrows df" using wf_column_length[OF w col] by simp
  have cellp: "\<And>i. cell df ''ProductID'' i = col ! i" by (simp add: cell_def col)
  from ex obtain j where j: "j < nrows df" "col ! j = IntV 11023" by (auto simp: cellp)
  have ne: "\<not> df_empty df" using j(1) by (rule positive_rows_not_empty)
  have sel: "select_rows df ?us = Inr (Some ?m)"
    by (simp add: select_rows_def getitem_def dict_get_def col)
  have "?m ! j" using j len by (simp add: val_eq_IntV)
  moreover have "j < length ?m" using j len by simp
  ultimately have found: "list_ex (\<lambda>m. m) ?m" unfolding list_ex_length by blast
  have app: "applicable df ?us = ?us" using pc cc by (simp add: applicable_def)
  have r1: "field_report (''ProductID'', IntV 11023) = ''ProductID: 11023''"
    by (simp add: field_report_def str_int_def str_nat.simps digits_def)
  have r2: "field_report (''CurrentStock'', IntV 50) = ''CurrentStock: 50''"
    by (simp add: field_report_def str_int_def str_nat.simps digits_def)
  let ?d = "write_all ?m df ?us"
  have res: "apply_data_updates df ?us
               = Inr (?d, ''Successfully updated: ProductID: 11023, CurrentStock: 50'')"
    using apply_data_updates_resolved[OF ne sel found] by (simp add: app r1 r2)
  have cells: "cell ?d c i = (if c = ''CurrentStock'' \<and> cell df ''ProductID'' i = IntV 11023
                               then IntV 50 else cell df c i)" if i: "i < nrows df" for c i
  proof -
    have mi: "?m ! i = (col ! i = IntV 11023)" using i len by (simp add: val_eq_IntV)
    show ?thesis
      using cell_write_all[OF w len i, of ?us c] pc cc mi
      by (auto simp: cellp)
  qed
  from res cells show ?thesis
    by (auto simp: columns_write_all nrows_write_all[OF len])
qed

theorem update_stock_frame_witness:
  "wf sample_df
   \<and> ''ProductID'' \<in> set (columns sample_df)
   \<and> ''CurrentStock'' \<in> set (columns sample_df)
   \<and> cell sample_df ''ProductID'' 3 = IntV 11023
   \<and> (\<exists>df'. apply_data_updates sample_df [(''ProductID'', IntV 11023), (''CurrentStock'', IntV 50)]
                 = Inr (df', ''Successfully updated: ProductID: 11023, CurrentStock: 50'')
            \<and> cell df' ''CurrentStock'' 3 = IntV 50
            \<and> cell df' ''ProductName'' 3 = StrV ''Organic Tomatoes''
            \<and> cell df' ''CurrentStock'' 2 = IntV 75)"
proof -
  have w: "wf sample_df" by code_simp
  have pc: "''ProductID'' \<in> set (columns sample_df)" by code_simp
  have cc: "''CurrentStock'' \<in> set (columns sample_df)" by code_simp
  have n: "nrows sample_df = 5" by code_simp
  have c3: "cell sample_df ''ProductID'' 3 = IntV 11023" by code_simp
  have c2: "cell sample_df ''ProductID'' 2 = IntV 11022" by code_simp
  have s2: "cell sample_df ''CurrentStock'' 2 = IntV 75" by code_simp
  have n3: "cell sample_df ''ProductName'' 3 = StrV ''Organic Tomatoes''" by code_simp
  have ex: "\<exists>i < nrows sample_df. cell sample_df ''ProductID'' i = IntV 11023"
    using c3 n by (intro exI[of _ 3]) simp
  from update_stock_frame[OF w pc cc ex] obtain df' where
    r: "apply_data_updates sample_df [(''ProductID'', IntV 11023), (''CurrentStock'', IntV 50)]
          = Inr (df', ''Successfully updated: ProductID: 11023, CurrentStock: 50'')"
    and cells: "\<And>c i. i < nrows sample_df \<Longrightarrow>
                 cell df' c i = (if c = ''CurrentStock'' \<and> cell sample_df ''ProductID'' i = IntV 11023
                                 then IntV 50 else cell sample_df c i)"
    by blast
  have "cell df' ''CurrentStock'' 3 = IntV 50" using cells[of 3 "''CurrentStock''"] n c3 by simp
  moreover have "cell df' ''ProductName'' 3 = StrV ''Organic Tomatoes''"
    using cells[of 3 "''ProductName''"] n n3 by simp
  moreover have "cell df' ''CurrentStock'' 2 = IntV 75"
    using cells[of 2 "''CurrentStock''"] n c2 s2 by simp
  ultimately show ?thesis using w pc cc c3 r by blast
qed

text \<open>
  C6 (as stated, refuted): with the two records named "Anand" and "ANAND", the command
  "Update product name Anand as Dubey" renames both, not only the first.
\<close>

theorem rename_first_only_counterexample:
  "apply_data_updates
     [(''ProductID'', [IntV 1, IntV 2]), (''ProductName'', [StrV ''Anand'', StrV ''ANAND''])]
     (parse_update_query ''Update product name Anand as Dubey'')
   = Inr ([(''ProductID'', [IntV 1, IntV 2]), (''ProductName'', [StrV ''dubey'', StrV ''dubey''])],
          ''Successfully updated: ProductName: dubey'')
   \<and> apply_data_updates
     [(''ProductID'', [IntV 1, IntV 2]), (''ProductName'', [StrV ''Anand'', StrV ''ANAND''])]
     (parse_update_query ''Update product name Anand as Dubey'')
   \<noteq> Inr ([(''ProductID'', [IntV 1, IntV 2]), (''ProductName'', [StrV ''dubey'', StrV ''ANAND''])],
          ''Successfully updated: ProductName: dubey'')"
  by code_simp

lemma map_of_key: "map_of d k = Some v \<Longrightarrow> k \<in> set (map fst d)"
  by (auto dest!: map_of_SomeD intro: rev_image_eqI)

text \<open>
  C6 (amended): when the update has no ProductID and selects by name, every record whose
  lower-cased name equals the lower-cased old name is updated: each entry of the update
  whose key is a column is written into all of those records, and every other cell keeps
  its value.
\<close>

theorem name_selector_updates_every_match:
  assumes w: "wf df"
    and nopid: "''ProductID'' \<notin> set (map fst updates)"
    and old: "map_of updates ''old_name'' = Some (StrV n)"
    and dist: "distinct (map fst updates)"
    and names: "map_of df ''ProductName'' = Some col"
    and strs: "list_ex is_str col"
    and hit: "\<exists>i < nrows df. lower_cell (col ! i) = StrV (str_lower n)"
  shows "\<exists>df' msg. apply_data_updates df updates = Inr (df', msg)
           \<and> columns df' = columns df \<and> nrows df' = nrows df
           \<and> (\<forall>c i. i < nrows df \<longrightarrow>
                 cell df' c i =
                   (case map_of updates c of
                      Some v \<Rightarrow> if lower_cell (cell df ''ProductName'' i) = StrV (str_lower n)
                                   \<and> c \<in> set (columns df)
                                then v else cell df c i
                    | None \<Rightarrow> cell df c i))"
proof -
  let ?m = "map (\<lambda>x. val_eq x (StrV (str_lower n))) (map lower_cell col)"
  have len: "length ?m = nrows df" using wf_column_length[OF w names] by simp
  have cellp: "\<And>i. cell df ''ProductName'' i = col ! i" by (simp add: cell_def names)
  from hit obtain j where j: "j < nrows df" "lower_cell (col ! j) = StrV (str_lower n)" by blast
  have ne: "\<not> df_empty df" using j(1) by (rule positive_rows_not_empty)
  have oldkey: "''old_name'' \<in> set (map fst updates)" using old by (rule map_of_key)
  have sel: "select_rows df updates = Inr (Some ?m)"
    using nopid oldkey old names strs
    by (simp add: select_rows_def getitem_def dict_get_def series_str_lower_def)
  have "?m ! j" using j len by (simp add: val_eq_StrV)
  moreover have "j < length ?m" using j len by simp
  ultimately have found: "list_ex (\<lambda>m. m) ?m" unfolding list_ex_length by blast
  let ?d = "write_all ?m df (applicable df updates)"
  have d: "?d = write_all ?m df updates" by (rule write_all_applicable)
  have cells: "cell ?d c i =
                   (case map_of updates c of
                      Some v \<Rightarrow> if lower_cell (cell df ''ProductName'' i) = StrV (str_lower n)
                                   \<and> c \<in> set (columns df)
                                then v else cell df c i
                    | None \<Rightarrow> cell df c i)" if i: "i < nrows df" for c i
  proof -
    have mi: "?m ! i = (lower_cell (col ! i) = StrV (str_lower n))"
      using i len by (simp add: val_eq_StrV)
    show ?thesis
      unfolding d cell_write_all[OF w len i dist] mi cellp ..
  qed
  have co: "columns ?d = columns df" by (rule columns_write_all)
  have nr: "nrows ?d = nrows df" by (rule nrows_write_all[OF len])
  from apply_data_updates_resolved[OF ne sel found] co nr cells show ?thesis
    by blast
qed

theorem name_selector_updates_every_match_witness:
  "wf [(''ProductID'', [IntV 1, IntV 2]), (''ProductName'', [StrV ''Anand'', StrV ''ANAND''])]
   \<and> lower_cell (StrV ''Anand'') = StrV (str_lower ''anand'')
   \<and> lower_cell (StrV ''ANAND'') = StrV (str_lower ''anand'')
   \<and> (\<exists>df' msg.
         apply_data_updates
           [(''ProductID'', [IntV 1, IntV 2]), (''ProductName'', [StrV ''Anand'', StrV ''ANAND''])]
           [(''old_name'', StrV ''anand''), (''ProductName'', StrV ''dubey'')] = Inr (df', msg)
         \<and> cell df' ''ProductName'' 0 = StrV ''dubey''
         \<and> cell df' ''ProductName'' 1 = StrV ''dubey''
         \<and> cell df' ''ProductID'' 1 = IntV 2)"
proof -
  let ?df = "[(''ProductID'', [IntV 1, IntV 2]), (''ProductName'', [StrV ''Anand'', StrV ''ANAND''])]"
  let ?us = "[(''old_name'', StrV ''anand''), (''ProductName'', StrV ''dubey'')]"
  let ?col = "[StrV ''Anand'', StrV ''ANAND'']"
  have w: "wf ?df" by code_simp
  have l0: "lower_cell (StrV ''Anand'') = StrV (str_lower ''anand'')" by code_simp
  have l1: "lower_cell (StrV ''ANAND'') = StrV (str_lower ''anand'')" by code_simp
  have n: "nrows ?df = 2" by code_simp
  have nopid: "''ProductID'' \<notin> set (map fst ?us)" by simp
  have old: "map_of ?us ''old_name'' = Some (StrV ''anand'')" by simp
  have dist: "distinct (map fst ?us)" by simp
  have names: "map_of ?df ''ProductName'' = Some ?col" by simp
  have strs: "list_ex is_str ?col" by simp
  have hit: "\<exists>i < nrows ?df. lower_cell (?col ! i) = StrV (str_lower ''anand'')"
    using l0 n by (intro exI[of _ 0]) simp
  have cols: "''ProductName'' \<in> set (columns ?df)" by (simp add: columns_def)
  have c0: "cell ?df ''ProductName'' 0 = StrV ''Anand''" by (simp add: cell_def)
  have c1: "cell ?df ''ProductName'' 1 = StrV ''ANAND''" by (simp add: cell_def)
  have p1: "cell ?df ''ProductID'' 1 = IntV 2" by (simp add: cell_def)
  from name_selector_updates_every_match[OF w nopid old dist names strs hit]
  obtain df' msg where r: "apply_data_updates ?df ?us = Inr (df', msg)"
    and cells: "\<And>c i. i < nrows ?df \<Longrightarrow>
                 cell df' c i =
                   (case map_of ?us c of
                      Some v \<Rightarrow> if lower_cell (cell ?df ''ProductName'' i) = StrV (str_lower ''anand'')
                                   \<and> c \<in> set (columns ?df)
                                then v else cell ?df c i
                    | None \<Rightarrow> cell ?df c i)"
    by blast
  have "cell df' ''ProductName'' 0 = StrV ''dubey''"
    using cells[of 0 "''ProductName''"] n c0 l0 cols by simp
  moreover have "cell df' ''ProductName'' 1 = StrV ''dubey''"
    using cells[of 1 "''ProductName''"] n c1 l1 cols by simp
  moreover have "cell df' ''ProductID'' 1 = IntV 2"
    using cells[of 1 "''ProductID''"] n p1 by simp
  ultimately show ?thesis using w l0 l1 r by blast
qed

lemma select_rows_length:
  assumes "wf df" "select_rows df us = Inr (Some m)"
  shows "length m = nrows df"
proof (cases "''ProductID'' \<in> set (map fst us)")
  case True
  with assms(2) obtain col where "map_of df ''ProductID'' = Some col" "length m = length col"
    by (auto simp: select_rows_def getitem_def split: option.splits)
  with wf_column_length[OF assms(1)] show ?thesis by simp
next
  case False
  with assms(2) obtain col where "map_of df ''ProductName'' = Some col" "length m = length col"
    by (auto simp: select_rows_def getitem_def series_str_lower_def
             split: option.splits if_splits val.splits)
  with wf_column_length[OF assms(1)] show ?thesis by simp
qed

lemma apply_data_updates_frame:
  assumes "apply_data_updates df us = Inr (df', msg)"
  shows "df' = df \<or> (\<exists>m. select_rows df us = Inr (Some m) \<and> df' = write_all m df us)"
proof (cases "df_empty df")
  case True
  with assms show ?thesis by (simp add: apply_data_updates_def)
next
  case False
  show ?thesis
  proof (cases "select_rows df us")
    case (Inl e)
    with assms False show ?thesis by (simp add: apply_data_updates_def)
  next
    case (Inr sel)
    show ?thesis
    proof (cases sel)
      case None
      with assms False Inr show ?thesis by (simp add: apply_data_updates_def)
    next
      case (Some m)
      show ?thesis
      proof (cases "list_ex (\<lambda>m. m) m")
        case True
        from apply_data_updates_resolved[OF False Inr[unfolded Some] True] assms
        have "df' = write_all m df (applicable df us)" by simp
        then show ?thesis using Inr Some by (simp add: write_all_applicable)
      next
        case nf: False
        with assms False Inr Some show ?thesis by (simp add: apply_data_updates_def)
      qed
    qed
  qed
qed

lemma cell_write_all_origin:
  assumes "wf df" "length m = nrows df" "i < nrows df"
  shows "cell (write_all m df us) c i = cell df c i
       \<or> (c, cell (write_all m df us) c i) \<in> set us"
  using assms unfolding write_all_def
proof (induction us arbitrary: df)
  case Nil
  then show ?case by simp
next
  case (Cons kv us)
  obtain k v where kv: "kv = (k, v)" by (cases kv)
  let ?d = "loc_set df m k v"
  let ?r = "foldl (\<lambda>d (key, v). loc_set d m key v) ?d us"
  have "cell ?r c i = cell ?d c i \<or> (c, cell ?r c i) \<in> set us"
    using Cons.prems by (intro Cons.IH) (simp_all add: wf_loc_set nrows_loc_set)
  moreover have "cell ?d c i = cell df c i \<or> (c = k \<and> cell ?d c i = v)"
    using cell_loc_set[OF Cons.prems, of k v c] by auto
  ultimately show ?case using kv by auto
qed

text \<open>
  C10: every string that \<open>parse_update_query\<close> extracts is in lower case, whatever the
  casing of the command; and whenever applying the parsed update changes a cell of a
  well-formed frame to a string, that string is in lower case.
\<close>

theorem extracted_strings_lowercase:
  "((k, StrV t) \<in> set (parse_update_query q) \<longrightarrow> str_lower t = t)
   \<and> (wf df \<and> apply_data_updates df (parse_update_query q) = Inr (df', msg)
        \<and> i < nrows df \<and> cell df' c i = StrV t' \<and> cell df c i \<noteq> StrV t'
      \<longrightarrow> str_lower t' = t')"
proof (intro conjI impI)
  assume "(k, StrV t) \<in> set (parse_update_query q)"
  then show "str_lower t = t" by (rule parse_values_lowered)
next
  assume a: "wf df \<and> apply_data_updates df (parse_update_query q) = Inr (df', msg)
        \<and> i < nrows df \<and> cell df' c i = StrV t' \<and> cell df c i \<noteq> StrV t'"
  then have w: "wf df" and i: "i < nrows df" and new: "cell df' c i = StrV t'"
    and changed: "cell df c i \<noteq> StrV t'" by simp_all
  from a have "apply_data_updates df (parse_update_query q) = Inr (df', msg)" by simp
  from apply_data_updates_frame[OF this] new changed obtain m where
    sel: "select_rows df (parse_update_query q) = Inr (Some m)"
    and d: "df' = write_all m df (parse_update_query q)"
    by auto
  from cell_write_all_origin[OF w select_rows_length[OF w sel] i, of "parse_update_query q" c]
    new changed d
  have "(c, StrV t') \<in> set (parse_update_query q)" by auto
  then show "str_lower t' = t'" by (rule parse_values_lowered)
qed

theorem extracted_strings_lowercase_witness:
  "(''Location'', StrV ''sectionb'')
     \<in> set (parse_update_query ''Update product 11023 location to SectionB'')
   \<and> wf sample_df
   \<and> (\<exists>df' msg. apply_data_updates sample_df
                    (parse_update_query ''Update product 11023 location to SectionB'')
                  = Inr (df', msg)
               \<and> cell df' ''Location'' 3 = StrV ''sectionb'')
   \<and> cell sample_df ''Location'' 3 = StrV ''SectionC''
   \<and> str_lower ''sectionb'' = ''sectionb''"
proof -
  let ?q = "''Update product 11023 location to SectionB''"
  have p: "parse_update_query ?q = [(''ProductID'', IntV 11023), (''Location'', StrV ''sectionb'')]"
    by code_simp
  have h: "(''Location'', StrV ''sectionb'') \<in> set (parse_update_query ?q)"
    unfolding p by simp
  have w: "wf sample_df" by code_simp
  have n: "(3::nat) < nrows sample_df" by code_simp
  have ne: "\<not> df_empty sample_df" by code_simp
  have sel: "select_rows sample_df (parse_update_query ?q)
               = Inr (Some [False, False, False, True, False])"
    unfolding p by code_simp
  have old: "cell sample_df ''Location'' 3 = StrV ''SectionC''" by code_simp
  have new: "cell (write_all [False, False, False, True, False] sample_df
                     (applicable sample_df (parse_update_query ?q))) ''Location'' 3
               = StrV ''sectionb''"
    unfolding p by code_simp
  let ?d = "write_all [False, False, False, True, False] sample_df
              (applicable sample_df (parse_update_query ?q))"
  obtain msg where r: "apply_data_updates sample_df (parse_update_query ?q) = Inr (?d, msg)"
    using apply_data_updates_resolved[OF ne sel] by simp
  have "str_lower ''sectionb'' = ''sectionb''"
    using extracted_strings_lowercase[of "''Location''" "''sectionb''" ?q sample_df ?d msg 3
            "''Location''" "''sectionb''"] h w r n new old
    by simp
  with h w r new old show ?thesis by blast
qed

subsection \<open>The projected document\<close>

lemma isspace_nl: "isspace (CHR 0x0A)"
  by (simp add: isspace_def whitespace_def)

lemma str_strip_framed:
  assumes "x \<noteq> []" "\<not> isspace (hd x)" "\<not> isspace (last x)"
  shows "str_strip (nl @ x @ nl) = x"
proof -
  from assms(1) obtain c cs where x: "x = c # cs" by (cases x) auto
  from assms(1) obtain bs e where x': "x = bs @ [e]" by (cases x rule: rev_cases) auto
  from x assms(2) have c: "\<not> isspace c" by simp
  from x' assms(3) have e: "\<not> isspace e" by simp
  have "dropWhile isspace (nl @ x @ nl) = x @ nl"
    using c by (simp add: nl_def isspace_nl x)
  moreover have "dropWhile isspace (rev (x @ nl)) = rev x"
    using e by (simp add: nl_def isspace_nl x')
  ultimately show ?thesis by (simp add: str_strip_def)
qed

lemma priority_unknown_expiry:
  "priority (stock_status cs) ''UNKNOWN EXPIRY''
     = (if cs < 10 then ''HIGH PRIORITY'' else ''NORMAL PRIORITY'')"
  by (simp add: priority_def stock_status_def)

lemma not_space_P: "\<not> isspace CHR ''P''"
  by (simp add: isspace_def whitespace_def)

lemma not_space_Y: "\<not> isspace CHR ''Y''"
  by (simp add: isspace_def whitespace_def)

lemma last_priority: "last (priority s e) = CHR ''Y''"
  by (simp add: priority_def)

lemma create_document_text_body:
  "create_document_text today product_id product_name location current_stock last_sold_date
     expiry_date sales_last_month total_sales factory_distance_km =
   concat
    [''Product Information:'', nl,
     ''Product ID: '', str_int product_id, nl,
     ''Product Name: '', product_name, nl,
     ''Location: '', location, nl,
     ''Current Stock: '', str_int current_stock, '' units ('', stock_status current_stock, '')'', nl,
     ''Last Sold Date: '', last_sold_date, nl,
     ''Expiry Date: '', expiry_date, '' ('', expiry_status today expiry_date, '')'', nl,
     ''Sales Last Month: '', str_int sales_last_month, '' units ('',
        demand_status sales_last_month, '')'', nl,
     ''Total Sales: '', str_int total_sales, '' units'', nl,
     ''Factory Distance: '', str_int factory_distance_km, '' km ('',
        distance_status factory_distance_km, '')'', nl,
     ''Status Summary: '', stock_status current_stock, '', '', expiry_status today expiry_date,
        '', '', demand_status sales_last_month, nl,
     ''Priority: '', priority (stock_status current_stock) (expiry_status today expiry_date)]"
  (is "_ = ?body")
proof -
  let ?p = "priority (stock_status current_stock) (expiry_status today expiry_date)"
  have ne: "?p \<noteq> []" by (simp add: priority_def)
  have "?body \<noteq> []" by simp
  moreover have "hd ?body = CHR ''P''" by simp
  moreover have "last ?body = CHR ''Y''" using ne by (simp add: last_priority)
  ultimately have "str_strip (nl @ ?body @ nl) = ?body"
    by (intro str_strip_framed) (simp_all only: not_space_P not_space_Y not_False_eq_True)
  moreover have "document_text product_id product_name location current_stock last_sold_date
          expiry_date sales_last_month total_sales factory_distance_km
          (stock_status current_stock) (expiry_status today expiry_date)
          (demand_status sales_last_month) (distance_status factory_distance_km)
        = nl @ ?body @ nl"
    by (simp add: document_text_def)
  ultimately show ?thesis by (simp only: create_document_text_def)
qed

lemma create_document_text_nonempty:
  "create_document_text today product_id product_name location current_stock last_sold_date
     expiry_date sales_last_month total_sales factory_distance_km \<noteq> []"
  by (simp add: create_document_text_body)

lemma expiry_status_unparsed:
  "strptime_ymd expiry_date = None \<Longrightarrow> expiry_status today expiry_date = ''UNKNOWN EXPIRY''"
  by (simp add: expiry_status_def)

text \<open>
  C7: for a record whose ExpiryDate \<open>strptime\<close> rejects, the projection still returns the
  whole document: the expiry label is UNKNOWN EXPIRY, and the stock, demand and distance
  labels and the priority are computed from their fields and embedded as for any other
  record.
\<close>

theorem unparsed_expiry_document:
  assumes "strptime_ymd expiry_date = None"
  shows "create_document_text today product_id product_name location current_stock
           last_sold_date expiry_date sales_last_month total_sales factory_distance_km =
   concat
    [''Product Information:'', nl,
     ''Product ID: '', str_int product_id, nl,
     ''Product Name: '', product_name, nl,
     ''Location: '', location, nl,
     ''Current Stock: '', str_int current_stock, '' units ('', stock_status current_stock, '')'', nl,
     ''Last Sold Date: '', last_sold_date, nl,
     ''Expiry Date: '', expiry_date, '' (UNKNOWN EXPIRY)'', nl,
     ''Sales Last Month: '', str_int sales_last_month, '' units ('',
        demand_status sales_last_month, '')'', nl,
     ''Total Sales: '', str_int total_sales, '' units'', nl,
     ''Factory Distance: '', str_int factory_distance_km, '' km ('',
        distance_status factory_distance_km, '')'', nl,
     ''Status Summary: '', stock_status current_stock, '', UNKNOWN EXPIRY, '',
        demand_status sales_last_month, nl,
     ''Priority: '', if current_stock < 10 then ''HIGH PRIORITY'' else ''NORMAL PRIORITY'']"
  unfolding create_document_text_body expiry_status_unparsed[OF assms] priority_unknown_expiry
  by simp

theorem unparsed_expiry_document_witness:
  "strptime_ymd ''2025-02-30'' = None
   \<and> create_document_text (Date 2025 9 22) 11023 ''Organic Tomatoes'' ''SectionC'' 15
         ''2025-09-18'' ''2025-02-30'' 80 420 15
       = str_join nl
          [''Product Information:'',
           ''Product ID: 11023'',
           ''Product Name: Organic Tomatoes'',
           ''Location: SectionC'',
           ''Current Stock: 15 units (LOW STOCK)'',
           ''Last Sold Date: 2025-09-18'',
           ''Expiry Date: 2025-02-30 (UNKNOWN EXPIRY)'',
           ''Sales Last Month: 80 units (MEDIUM DEMAND)'',
           ''Total Sales: 420 units'',
           ''Factory Distance: 15 km (MODERATE DISTANCE)'',
           ''Status Summary: LOW STOCK, UNKNOWN EXPIRY, MEDIUM DEMAND'',
           ''Priority: NORMAL PRIORITY'']"
proof -
  have h: "strptime_ymd ''2025-02-30'' = None" by code_simp
  have n: "str_int 11023 = ''11023''" "str_int 15 = ''15''" "str_int 80 = ''80''"
    "str_int 420 = ''420''"
    by (simp_all add: str_int_def str_nat.simps digits_def)
  show ?thesis
    using h unparsed_expiry_document[OF h, of "Date 2025 9 22" 11023 "''Organic Tomatoes''"
        "''SectionC''" 15 "''2025-09-18''" 80 420 15]
    by (simp add: n stock_status_def demand_status_def distance_status_def)
qed

text \<open>
  C9: the document does not depend on the date of the call, and the expiry label of a
  date that parses is the classification of its distance in days from 22 September 2025.
\<close>

theorem reference_date_fixed:
  "create_document_text today1 product_id product_name location current_stock last_sold_date
      expiry_date sales_last_month total_sales factory_distance_km
   = create_document_text today2 product_id product_name location current_stock last_sold_date
      expiry_date sales_last_month total_sales factory_distance_km
   \<and> (strptime_ymd expiry_date = Some expiry \<longrightarrow>
        expiry_status today1 expiry_date
          = expiry_label (toordinal expiry - toordinal (Date 2025 9 22)))"
  by (simp add: create_document_text_def expiry_status_def)

theorem reference_date_fixed_witness:
  "strptime_ymd ''2025-09-22'' = Some (Date 2025 9 22)
   \<and> expiry_status (Date 2031 1 1) ''2025-09-22'' = ''EXPIRES SOON - URGENT''
   \<and> strptime_ymd ''2025-09-21'' = Some (Date 2025 9 21)
   \<and> expiry_status (Date 2031 1 1) ''2025-09-21'' = ''EXPIRED''
   \<and> strptime_ymd ''2025-10-23'' = Some (Date 2025 10 23)
   \<and> expiry_status (Date 2031 1 1) ''2025-10-23'' = ''FRESH''"
proof -
  have a: "strptime_ymd ''2025-09-22'' = Some (Date 2025 9 22)" by code_simp
  have b: "strptime_ymd ''2025-09-21'' = Some (Date 2025 9 21)" by code_simp
  have c: "strptime_ymd ''2025-10-23'' = Some (Date 2025 10 23)" by code_simp
  note o = days_before_year_def days_before_month_def is_leap_def DAYS_IN_MONTH_def
  have "expiry_status (Date 2031 1 1) ''2025-09-22'' = ''EXPIRES SOON - URGENT''"
    using reference_date_fixed[of "Date 2031 1 1" _ _ _ _ _ "''2025-09-22''" _ _ _ _
            "Date 2025 9 22"] a
    by (simp add: o expiry_label_def)
  moreover have "expiry_status (Date 2031 1 1) ''2025-09-21'' = ''EXPIRED''"
    using reference_date_fixed[of "Date 2031 1 1" _ _ _ _ _ "''2025-09-21''" _ _ _ _
            "Date 2025 9 21"] b
    by (simp add: o expiry_label_def)
  moreover have "expiry_status (Date 2031 1 1) ''2025-10-23'' = ''FRESH''"
    using reference_date_fixed[of "Date 2031 1 1" _ _ _ _ _ "''2025-10-23''" _ _ _ _
            "Date 2025 10 23"] c
    by (simp add: o expiry_label_def)
  ultimately show ?thesis using a b c by simp
qed

subsection \<open>The prompt and the save step\<close>










lemma save_inventory_data_trace:
  "snd (save_inventory_data io_ok df)
     \<in> {[Makedirs (dirname CSV_FILE_PATH)],
        [Makedirs (dirname CSV_FILE_PATH), ToCsv CSV_FILE_PATH df],
        [Makedirs (dirname CSV_FILE_PATH), ToCsv CSV_FILE_PATH df, SetLastUpdate]}"
  by (simp add: save_inventory_data_def)

lemma save_inventory_data_in_place:
  "\<not> temp_then_rename CSV_FILE_PATH df (snd (save_inventory_data io_ok df))"
  using save_inventory_data_trace[of io_ok df] by auto

lemma dirname_csv: "dirname CSV_FILE_PATH = ''./data''"
  by code_simp

lemma stock_update_applied:
  "apply_data_updates sample_df [(''ProductID'', IntV 11023), (''CurrentStock'', IntV 50)]
     = Inr (loc_set sample_df [False, False, False, True, False] ''CurrentStock'' (IntV 50),
            ''Successfully updated: ProductID: 11023, CurrentStock: 50'')"
proof -
  let ?us = "[(''ProductID'', IntV 11023), (''CurrentStock'', IntV 50)]"
  let ?m = "[False, False, False, True, False]"
  have ne: "\<not> df_empty sample_df" by code_simp
  have sel: "select_rows sample_df ?us = Inr (Some ?m)" by code_simp
  have app: "applicable sample_df ?us = ?us" by code_simp
  have wr: "write_all ?m sample_df ?us = loc_set sample_df ?m ''CurrentStock'' (IntV 50)"
    by code_simp
  have r: "field_report (''ProductID'', IntV 11023) = ''ProductID: 11023''"
    "field_report (''CurrentStock'', IntV 50) = ''CurrentStock: 50''"
    by (simp_all add: field_report_def str_int_def str_nat.simps digits_def)
  from apply_data_updates_resolved[OF ne sel] show ?thesis
    by (simp add: app wr r)
qed

text \<open>
  C1 (the code departs from it): the save step of the update path sends the CSV text to the
  dataset path itself and never renames a temporary file, whatever the outcome of its
  operations; on the sample frame the command "Update product 11023 stock to 50" is saved
  by one direct write, whereas \<open>atomic_csv_update\<close> of data_generator.py writes the same
  frame to a temporary path and then replaces the dataset file.
\<close>

theorem update_path_writes_in_place:
  "(\<forall>io_ok df. \<not> temp_then_rename CSV_FILE_PATH df (snd (save_inventory_data io_ok df)))
   \<and> apply_updates_button (\<lambda>e. True) sample_df ''Update product 11023 stock to 50''
       = Inr (Saved ''Successfully updated: ProductID: 11023, CurrentStock: 50'',
              [Makedirs ''./data'',
               ToCsv ''./data/inventory.csv''
                 (loc_set sample_df [False, False, False, True, False] ''CurrentStock'' (IntV 50)),
               SetLastUpdate])
   \<and> writes_directly ''./data/inventory.csv''
        [Makedirs ''./data'',
         ToCsv ''./data/inventory.csv''
           (loc_set sample_df [False, False, False, True, False] ''CurrentStock'' (IntV 50)),
         SetLastUpdate]
   \<and> atomic_csv_update (\<lambda>e. True)
        (loc_set sample_df [False, False, False, True, False] ''CurrentStock'' (IntV 50))
        ''./data/inventory.csv''
       = (True,
          [ToCsv ''./data/inventory.csv.tmp''
             (loc_set sample_df [False, False, False, True, False] ''CurrentStock'' (IntV 50)),
           Replace ''./data/inventory.csv.tmp'' ''./data/inventory.csv''])
   \<and> temp_then_rename ''./data/inventory.csv''
        (loc_set sample_df [False, False, False, True, False] ''CurrentStock'' (IntV 50))
        [ToCsv ''./data/inventory.csv.tmp''
           (loc_set sample_df [False, False, False, True, False] ''CurrentStock'' (IntV 50)),
         Replace ''./data/inventory.csv.tmp'' ''./data/inventory.csv'']"
proof -
  let ?q = "''Update product 11023 stock to 50''"
  let ?d = "loc_set sample_df [False, False, False, True, False] ''CurrentStock'' (IntV 50)"
  have p: "parse_update_query ?q = [(''ProductID'', IntV 11023), (''CurrentStock'', IntV 50)]"
    by code_simp
  have ne: "\<not> df_empty sample_df" by code_simp
  have q: "str_strip ?q \<noteq> []" by code_simp
  have ch: "?d \<noteq> sample_df" by code_simp
  have sv: "save_inventory_data (\<lambda>e. True) ?d
              = (True, [Makedirs ''./data'', ToCsv ''./data/inventory.csv'' ?d, SetLastUpdate])"
    by (simp add: save_inventory_data_def dirname_csv) (simp add: CSV_FILE_PATH_def)
  have button: "apply_updates_button (\<lambda>e. True) sample_df ?q
       = Inr (Saved ''Successfully updated: ProductID: 11023, CurrentStock: 50'',
              [Makedirs ''./data'', ToCsv ''./data/inventory.csv'' ?d, SetLastUpdate])"
    using ne q ch
    by (simp add: apply_updates_button_def p stock_update_applied sv)
  have atomic: "atomic_csv_update (\<lambda>e. True) ?d ''./data/inventory.csv''
       = (True, [ToCsv ''./data/inventory.csv.tmp'' ?d,
                 Replace ''./data/inventory.csv.tmp'' ''./data/inventory.csv''])"
    by (simp add: atomic_csv_update_def Let_def)
  show ?thesis
    using save_inventory_data_in_place button atomic by simp
qed

end
